theory Spec2Isabelle
  imports Complex_Main
begin

section \<open>The draggable drawer of \<open>src/v5/App.tsx\<close>\<close>

text \<open>
  The final version of the drawer keeps one mutable record, \<open>dragState\<close>, in a ref and
  mutates it from three event handlers (\<open>handleDragStart\<close>, \<open>handleDragMove\<close>,
  \<open>handleDragEnd\<close>). The handlers also write inline styles of two DOM elements and call
  the host's \<open>onClose\<close> callback. The model threads all of this through one record,
  \<open>world\<close>; every handler is a function from the world before the event to the world
  after it.

  JavaScript numbers are modelled as exact reals: pixel arithmetic here is addition,
  subtraction and comparison, and rounding is not modelled. The one division of the
  source (the overlay opacity) can divide by zero, where JavaScript yields an infinity or
  \<open>NaN\<close>; its result type \<open>jsnum\<close> has those values.
\<close>

subsection \<open>Configuration and canonical offsets\<close>

datatype fullHeightMode = Auto | Full100

text \<open>
  The values a handler closes over: the props \<open>peekHeight\<close> (optional) and
  \<open>fullHeight\<close> (\<open>"auto"\<close> or \<open>"100%"\<close>), and the two measured heights.
\<close>

record config =
  peekHeight :: "real option"
  fullHeight :: fullHeightMode
  viewportHeight :: real
  drawerContentHeight :: real

definition DURATION :: nat where
  "DURATION = 400"

definition FULL_HEIGHT_OFFSET :: real where
  "FULL_HEIGHT_OFFSET = 20"

text \<open>
  Truthiness of an optional number: \<open>undefined\<close>, \<open>null\<close> and \<open>0\<close> are falsy. The source
  tests \<open>peekHeight\<close> and \<open>peekPosition\<close> this way.
\<close>

fun truthy :: "real option \<Rightarrow> bool" where
  "truthy None = False"
| "truthy (Some x) = (x \<noteq> 0)"

text \<open>\<open>peekHeight || 0\<close>\<close>

fun orZero :: "real option \<Rightarrow> real" where
  "orZero None = 0"
| "orZero (Some x) = (if x \<noteq> 0 then x else 0)"

definition getPeekOpenTranslateY :: "config \<Rightarrow> real" where
  "getPeekOpenTranslateY c = viewportHeight c - orZero (peekHeight c)"

definition getFullOpenTranslateY :: "config \<Rightarrow> real" where
  "getFullOpenTranslateY c =
     (if fullHeight c = Full100 then FULL_HEIGHT_OFFSET
      else viewportHeight c - drawerContentHeight c)"

definition getClosedTranslateY :: "config \<Rightarrow> real" where
  "getClosedTranslateY c = viewportHeight c"

subsection \<open>The mutable state\<close>

datatype direction = Up | Down

datatype openStateT = OpenPeek | OpenFull | OpenClosed

record dragState =
  openState :: openStateT
  isDragging :: bool
  translateY :: real
  dragStartY :: real
  initialYOffset :: real
  dragDirection :: "direction option"
  touchStartedOnDrawer :: bool

datatype jsnum = Num real | PosInfinity | NegInfinity | NaN

datatype transition = TransitionNone | TransitionTransform nat

text \<open>
  \<open>drawerRefCurrent\<close> and \<open>overlayRefCurrent\<close> say whether \<open>drawerRef.current\<close> and
  \<open>overlayRef.current\<close> are non-null. The handlers are bound to the drawer element they
  captured when the effect ran (\<open>drawerElement\<close>), so its inline style exists whether
  or not the ref is still set; \<open>drawerRef.current\<close>, when non-null, is that element.
  \<open>transformAnimationTimeout\<close> is the delay of the pending timer that will reset the
  transition to \<open>none\<close>. \<open>onCloseCalls\<close> counts the invocations of the \<open>onClose\<close> prop,
  and \<open>pendingFrames\<close> the callbacks handed to \<open>requestAnimationFrame\<close>.
\<close>

record world =
  ds :: dragState
  drawerRefCurrent :: bool
  overlayRefCurrent :: bool
  drawerTransform :: real
  drawerTransition :: transition
  transformAnimationTimeout :: "nat option"
  overlayOpacity :: jsnum
  bodyUserSelect :: string
  onCloseCalls :: nat
  pendingFrames :: nat

definition initialDragState :: dragState where
  "initialDragState =
     \<lparr>openState = OpenClosed, isDragging = False, translateY = 0, dragStartY = 0,
      initialYOffset = 0, dragDirection = None, touchStartedOnDrawer = False\<rparr>"

subsection \<open>Animation driver\<close>

text \<open>
  \<open>animate\<close> specialised to the drawer's transform channel, as \<open>animateToPosition\<close>
  calls it: nothing happens when the element is missing; otherwise the pending timer is
  replaced, the style and the transition are written. \<open>duration || DURATION\<close> falls back
  on the default for a missing or zero duration.
\<close>

fun durationOr :: "nat option \<Rightarrow> nat" where
  "durationOr None = DURATION"
| "durationOr (Some d) = (if d \<noteq> 0 then d else DURATION)"

definition animateToPosition :: "real \<Rightarrow> nat option \<Rightarrow> world \<Rightarrow> world" where
  "animateToPosition y duration w =
     (if \<not> drawerRefCurrent w then w
      else w\<lparr>drawerTransform := y,
             drawerTransition := TransitionTransform (durationOr duration),
             transformAnimationTimeout := Some (durationOr duration)\<rparr>)"

definition onClose :: "world \<Rightarrow> world" where
  "onClose w = w\<lparr>onCloseCalls := Suc (onCloseCalls w)\<rparr>"

subsection \<open>Gesture handlers\<close>

text \<open>
  \<open>handleDragStart\<close> reads the pointer's \<open>clientY\<close> and the top of the drawer's bounding
  rectangle.
\<close>

definition handleDragStart :: "real \<Rightarrow> real \<Rightarrow> world \<Rightarrow> world" where
  "handleDragStart clientY rectTop w =
     w\<lparr>ds := (ds w)\<lparr>isDragging := True, dragStartY := clientY,
                      touchStartedOnDrawer := True,
                      initialYOffset := clientY - rectTop\<rparr>,
       bodyUserSelect := ''none''\<rparr>"

text \<open>JavaScript division and the two operations applied to its result.\<close>

definition jsDiv :: "real \<Rightarrow> real \<Rightarrow> jsnum" where
  "jsDiv a b =
     (if b \<noteq> 0 then Num (a / b)
      else if 0 < a then PosInfinity
      else if a < 0 then NegInfinity
      else NaN)"

fun oneMinus :: "jsnum \<Rightarrow> jsnum" where
  "oneMinus (Num p) = Num (1 - p)"
| "oneMinus PosInfinity = NegInfinity"
| "oneMinus NegInfinity = PosInfinity"
| "oneMinus NaN = NaN"

text \<open>\<open>Math.max(0, x)\<close>\<close>

fun mathMax0 :: "jsnum \<Rightarrow> jsnum" where
  "mathMax0 (Num v) = Num (max 0 v)"
| "mathMax0 PosInfinity = PosInfinity"
| "mathMax0 NegInfinity = Num 0"
| "mathMax0 NaN = NaN"

definition bottomThreshold :: "config \<Rightarrow> real \<Rightarrow> real" where
  "bottomThreshold c drawerHeight =
     (if truthy (peekHeight c) then viewportHeight c - the (peekHeight c)
      else viewportHeight c - drawerHeight)"

definition dragOpacity :: "config \<Rightarrow> real \<Rightarrow> real \<Rightarrow> jsnum" where
  "dragOpacity c drawerHeight newTranslateY =
     mathMax0 (oneMinus (jsDiv (newTranslateY - bottomThreshold c drawerHeight)
                               (viewportHeight c - bottomThreshold c drawerHeight)))"

text \<open>
  \<open>handleDragMove\<close> reads the pointer's \<open>clientY\<close>, \<open>window.innerHeight\<close> and the height
  of the drawer's bounding rectangle.
\<close>

definition handleDragMove :: "config \<Rightarrow> real \<Rightarrow> real \<Rightarrow> real \<Rightarrow> world \<Rightarrow> world" where
  "handleDragMove c clientY innerHeight drawerHeight w =
     (if \<not> isDragging (ds w) then w
      else
        let diff = clientY - dragStartY (ds w);
            newTranslateY = dragStartY (ds w) + diff - initialYOffset (ds w);
            prevTranslateY = translateY (ds w);
            w1 = w\<lparr>ds := (ds w)\<lparr>translateY := newTranslateY\<rparr>\<rparr>;
            amountDrawerShowing = innerHeight - translateY (ds w1)
        in if amountDrawerShowing \<ge> drawerHeight then w1
           else
             let w2 = w1\<lparr>drawerTransform := translateY (ds w1)\<rparr>
             in if \<bar>diff\<bar> < 15 then w2
                else
                  let w3 = (if newTranslateY < prevTranslateY
                              then w2\<lparr>ds := (ds w2)\<lparr>dragDirection := Some Up\<rparr>\<rparr>
                            else if newTranslateY > prevTranslateY
                              then w2\<lparr>ds := (ds w2)\<lparr>dragDirection := Some Down\<rparr>\<rparr>
                            else w2)
                  in if overlayRefCurrent w3
                       then w3\<lparr>overlayOpacity := dragOpacity c drawerHeight newTranslateY\<rparr>
                     else w3)"

text \<open>
  The snap of a release that carries no direction: \<open>peekPosition\<close> is
  \<open>getPeekOpenTranslateY()\<close> when \<open>peekHeight\<close> is truthy and \<open>null\<close> otherwise, and is then
  itself tested for truthiness.
\<close>

definition snapClosest :: "config \<Rightarrow> real \<Rightarrow> real" where
  "snapClosest c currentPosition =
     (let peekPosition = (if truthy (peekHeight c) then Some (getPeekOpenTranslateY c) else None);
          fullPosition = getFullOpenTranslateY c
      in if truthy peekPosition then
           (let distanceToPeek = \<bar>currentPosition - the peekPosition\<bar>;
                distanceToFull = \<bar>currentPosition - fullPosition\<bar>
            in if distanceToPeek < distanceToFull then the peekPosition else fullPosition)
         else fullPosition)"

definition handleDragEnd :: "config \<Rightarrow> world \<Rightarrow> world" where
  "handleDragEnd c w =
     (let w0 = w\<lparr>ds := (ds w)\<lparr>isDragging := False\<rparr>\<rparr>;
          w1 =
            (if dragDirection (ds w0) = Some Down \<and> truthy (peekHeight c)
                \<and> translateY (ds w0) < getPeekOpenTranslateY c
             then animateToPosition (getPeekOpenTranslateY c) None
                    (w0\<lparr>ds := (ds w0)\<lparr>translateY := getPeekOpenTranslateY c\<rparr>\<rparr>)
             else if dragDirection (ds w0) = Some Down then onClose w0
             else if dragDirection (ds w0) = Some Up \<and> truthy (peekHeight c)
             then animateToPosition (getFullOpenTranslateY c) None
                    (w0\<lparr>ds := (ds w0)\<lparr>translateY := getFullOpenTranslateY c\<rparr>\<rparr>)
             else if dragDirection (ds w0) = Some Up
             then animateToPosition (getFullOpenTranslateY c) None
                    (w0\<lparr>ds := (ds w0)\<lparr>translateY := getFullOpenTranslateY c\<rparr>\<rparr>)
             else animateToPosition (snapClosest c (translateY (ds w0))) None
                    (w0\<lparr>ds := (ds w0)\<lparr>translateY := snapClosest c (translateY (ds w0))\<rparr>\<rparr>))
      in w1\<lparr>bodyUserSelect := '''', pendingFrames := Suc (pendingFrames w1)\<rparr>)"

text \<open>The callback that \<open>handleDragEnd\<close> hands to \<open>requestAnimationFrame\<close>.\<close>

definition animationFrame :: "world \<Rightarrow> world" where
  "animationFrame w =
     (if pendingFrames w = 0 then w
      else w\<lparr>ds := (ds w)\<lparr>touchStartedOnDrawer := False\<rparr>,
             pendingFrames := pendingFrames w - 1\<rparr>)"

text \<open>Whether a value written as an opacity lies in the closed unit interval.\<close>

fun inUnitInterval :: "jsnum \<Rightarrow> bool" where
  "inUnitInterval (Num v) = (0 \<le> v \<and> v \<le> 1)"
| "inUnitInterval PosInfinity = False"
| "inUnitInterval NegInfinity = False"
| "inUnitInterval NaN = False"

subsection \<open>Gestures\<close>

text \<open>
  A gesture is a pointer-down, a series of pointer-moves and a pointer-up, handled in
  arrival order. A move is the triple of the values \<open>handleDragMove\<close> reads: the
  pointer's \<open>clientY\<close>, \<open>window.innerHeight\<close> and the drawer's rendered height.
\<close>

fun dragMoves :: "config \<Rightarrow> (real \<times> real \<times> real) list \<Rightarrow> world \<Rightarrow> world" where
  "dragMoves c [] w = w"
| "dragMoves c ((clientY, innerHeight, drawerHeight) # ms) w =
     dragMoves c ms (handleDragMove c clientY innerHeight drawerHeight w)"

definition dragGesture ::
  "config \<Rightarrow> real \<Rightarrow> real \<Rightarrow> (real \<times> real \<times> real) list \<Rightarrow> world \<Rightarrow> world" where
  "dragGesture c clientY rectTop ms w =
     handleDragEnd c (dragMoves c ms (handleDragStart clientY rectTop w))"

text \<open>
  A mounted drawer at rest at offset \<open>y\<close> with the overlay opaque, as the open effect
  leaves it once its transition has ended, before any gesture has been classified.
\<close>

definition restingWorld :: "real \<Rightarrow> world" where
  "restingWorld y =
     \<lparr>ds = initialDragState\<lparr>translateY := y\<rparr>,
      drawerRefCurrent = True, overlayRefCurrent = True,
      drawerTransform = y, drawerTransition = TransitionNone,
      transformAnimationTimeout = None, overlayOpacity = Num 1,
      bodyUserSelect = '''', onCloseCalls = 0, pendingFrames = 0\<rparr>"

subsection \<open>Escape key\<close>

text \<open>
  \<open>useKeyPress(key, callback)\<close> registers \<open>handleKeyPress\<close> on the document for as long as
  the component is mounted. The drawer calls \<open>useKeyPress("Escape", onClose)\<close> in its body
  with \<open>isOpen\<close> in scope and unused.
\<close>

definition handleKeyPress :: "string \<Rightarrow> (world \<Rightarrow> world) \<Rightarrow> string \<Rightarrow> world \<Rightarrow> world" where
  "handleKeyPress key callback eKey w = (if eKey = key then callback w else w)"

definition drawerKeydown :: "bool \<Rightarrow> string \<Rightarrow> world \<Rightarrow> world" where
  "drawerKeydown isOpen eKey w = handleKeyPress ''Escape'' onClose eKey w"

subsection \<open>Mounting and unmounting: \<open>AnimatedRender\<close>\<close>

text \<open>
  \<open>AnimatedRender\<close> holds the state \<open>isMounted\<close> and the ref \<open>timeoutRef\<close>; its effect
  depends on the props \<open>showing\<close> and \<open>duration\<close>. The model adds the part of the browser
  the component talks to: the pending timers, each with its handle and the milliseconds
  left, and the handle the next \<open>setTimeout\<close> will return. Every timer this component
  sets has the callback \<open>() => setIsMounted(false)\<close>.

  The framework is modelled as follows. A render with changed dependencies runs the
  cleanup of the previous effect and then the effect with the new props; a render with
  unchanged dependencies runs neither. The updater handed to \<open>setIsMounted\<close> runs once,
  when the effect runs. Time passes in steps of whole milliseconds, and a timer fires in
  the step in which its delay has elapsed.
\<close>

record animatedRender =
  showing :: bool
  duration :: nat
  isMounted :: bool
  timeoutRef :: "nat option"
  timers :: "(nat \<times> nat) list"
  nextTimerId :: nat

definition setTimeout :: "nat \<Rightarrow> animatedRender \<Rightarrow> nat \<times> animatedRender" where
  "setTimeout delay s =
     (nextTimerId s,
      s\<lparr>timers := timers s @ [(nextTimerId s, delay)], nextTimerId := Suc (nextTimerId s)\<rparr>)"

definition clearTimeout :: "nat \<Rightarrow> animatedRender \<Rightarrow> animatedRender" where
  "clearTimeout i s = s\<lparr>timers := filter (\<lambda>t. fst t \<noteq> i) (timers s)\<rparr>"

text \<open>\<open>if (timeoutRef.current) clearTimeout(timeoutRef.current)\<close>: the handle 0 is falsy.\<close>

fun clearIfSet :: "nat option \<Rightarrow> animatedRender \<Rightarrow> animatedRender" where
  "clearIfSet None s = s"
| "clearIfSet (Some i) s = (if i \<noteq> 0 then clearTimeout i s else s)"

definition effect :: "animatedRender \<Rightarrow> animatedRender" where
  "effect s =
     (if showing s then s\<lparr>isMounted := True\<rparr>
      else if isMounted s then
        (let s1 = clearIfSet (timeoutRef s) s;
             r = setTimeout (duration s1) s1
         in (snd r)\<lparr>timeoutRef := Some (fst r)\<rparr>)
      else s)"

definition cleanup :: "animatedRender \<Rightarrow> animatedRender" where
  "cleanup s = clearIfSet (timeoutRef s) s"

definition mount :: "bool \<Rightarrow> nat \<Rightarrow> nat \<Rightarrow> animatedRender" where
  "mount sh d firstId =
     effect \<lparr>showing = sh, duration = d, isMounted = sh, timeoutRef = None,
             timers = [], nextTimerId = firstId\<rparr>"

definition rerender :: "bool \<Rightarrow> nat \<Rightarrow> animatedRender \<Rightarrow> animatedRender" where
  "rerender sh d s =
     (if sh = showing s \<and> d = duration s then s
      else effect ((cleanup s)\<lparr>showing := sh, duration := d\<rparr>))"

definition elapse :: "nat \<Rightarrow> animatedRender \<Rightarrow> animatedRender" where
  "elapse dt s =
     s\<lparr>timers := map (\<lambda>t. (fst t, snd t - dt)) (filter (\<lambda>t. dt < snd t) (timers s)),
       isMounted := (if filter (\<lambda>t. snd t \<le> dt) (timers s) = [] then isMounted s
                     else False)\<rparr>"

text \<open>\<open>return isMounted || showing ? children : null\<close>\<close>

definition rendersChildren :: "animatedRender \<Rightarrow> bool" where
  "rendersChildren s = (isMounted s \<or> showing s)"

text \<open>
  The drawer renders \<open><AnimatedRender showing={isOpen} duration={DURATION + 100}>\<close>, so
  what happens to its content is a sequence of changes of \<open>isOpen\<close> and of lapses of
  time.
\<close>

datatype event = IsOpen bool | Elapse nat

fun step :: "event \<Rightarrow> animatedRender \<Rightarrow> animatedRender" where
  "step (IsOpen b) s = rerender b (DURATION + 100) s"
| "step (Elapse dt) s = elapse dt s"

fun run :: "event list \<Rightarrow> animatedRender \<Rightarrow> animatedRender" where
  "run [] s = s"
| "run (e # es) s = run es (step e s)"

text \<open>
  What holds of the component between events: while showing, it is mounted and no timer
  is pending; while closing, exactly the timer in \<open>timeoutRef\<close> is pending; once
  unmounted, none is.
\<close>

definition invariant :: "animatedRender \<Rightarrow> bool" where
  "invariant s =
     (0 < nextTimerId s \<and> duration s = DURATION + 100
      \<and> (if showing s then isMounted s \<and> timers s = []
         else if isMounted s
           then (\<exists>i r. timers s = [(i, r)] \<and> timeoutRef s = Some i \<and> i \<noteq> 0 \<and> 0 < r)
         else timers s = []))"

text \<open>The time that passes during a sequence of events, in milliseconds.\<close>

fun elapsed :: "event list \<Rightarrow> nat" where
  "elapsed [] = 0"
| "elapsed (IsOpen b # es) = elapsed es"
| "elapsed (Elapse dt # es) = dt + elapsed es"

section \<open>Canonical offsets\<close>

text \<open>
  C5. The canonical offsets are: closed is the viewport height; peek-open is the viewport
  height minus the peek height; full-open is the constant 20 in \<open>"100%"\<close> mode and the
  viewport height minus the content height otherwise. For viewport 800 and content 300
  the open position is 500 and the closed position 800; for peek height 150 in \<open>"100%"\<close>
  mode with viewport 800 the peek offset is 650 and the full offset 20.
\<close>

theorem canonical_offsets:
  "getClosedTranslateY \<lparr>peekHeight = pk, fullHeight = m, viewportHeight = vh,
       drawerContentHeight = ch\<rparr> = vh
   \<and> getPeekOpenTranslateY \<lparr>peekHeight = Some p, fullHeight = m, viewportHeight = vh,
       drawerContentHeight = ch\<rparr> = vh - p
   \<and> getFullOpenTranslateY \<lparr>peekHeight = pk, fullHeight = Full100, viewportHeight = vh,
       drawerContentHeight = ch\<rparr> = 20
   \<and> getFullOpenTranslateY \<lparr>peekHeight = pk, fullHeight = Auto, viewportHeight = vh,
       drawerContentHeight = ch\<rparr> = vh - ch
   \<and> getFullOpenTranslateY \<lparr>peekHeight = None, fullHeight = Auto, viewportHeight = 800,
       drawerContentHeight = 300\<rparr> = 500
   \<and> getClosedTranslateY \<lparr>peekHeight = None, fullHeight = Auto, viewportHeight = 800,
       drawerContentHeight = 300\<rparr> = 800
   \<and> getPeekOpenTranslateY \<lparr>peekHeight = Some 150, fullHeight = Full100,
       viewportHeight = 800, drawerContentHeight = ch\<rparr> = 650
   \<and> getFullOpenTranslateY \<lparr>peekHeight = Some 150, fullHeight = Full100,
       viewportHeight = 800, drawerContentHeight = ch\<rparr> = 20"
  by (simp add: getClosedTranslateY_def getPeekOpenTranslateY_def getFullOpenTranslateY_def
      FULL_HEIGHT_OFFSET_def)

text \<open>
  C6 (as amended). The source never validates \<open>peekHeight\<close>, so the ordering
  \<open>fullOpen \<le> peekOpen \<le> closed\<close> is not an invariant of the computed offsets. With a
  peek height configured it holds exactly when the peek height is non-negative and at
  most the content height in \<open>"auto"\<close> mode, at most the viewport height minus 20 in
  \<open>"100%"\<close> mode.
\<close>

theorem offsets_ordering_iff:
  assumes "peekHeight c = Some p" and "p \<noteq> 0"
  shows "(getFullOpenTranslateY c \<le> getPeekOpenTranslateY c
          \<and> getPeekOpenTranslateY c \<le> getClosedTranslateY c)
         \<longleftrightarrow> (0 \<le> p \<and> p \<le> (if fullHeight c = Full100 then viewportHeight c - 20
                                 else drawerContentHeight c))"
  using assms
  by (auto simp add: getClosedTranslateY_def getPeekOpenTranslateY_def
      getFullOpenTranslateY_def FULL_HEIGHT_OFFSET_def)

theorem offsets_ordering_iff_witness:
  "(getFullOpenTranslateY \<lparr>peekHeight = Some 150, fullHeight = Full100, viewportHeight = 800,
          drawerContentHeight = 300\<rparr>
        \<le> getPeekOpenTranslateY \<lparr>peekHeight = Some 150, fullHeight = Full100,
          viewportHeight = 800, drawerContentHeight = 300\<rparr>
      \<and> getPeekOpenTranslateY \<lparr>peekHeight = Some 150, fullHeight = Full100,
          viewportHeight = 800, drawerContentHeight = 300\<rparr>
        \<le> getClosedTranslateY \<lparr>peekHeight = Some 150, fullHeight = Full100,
          viewportHeight = 800, drawerContentHeight = 300\<rparr>)
   \<and> (getFullOpenTranslateY \<lparr>peekHeight = Some 200, fullHeight = Auto, viewportHeight = 800,
          drawerContentHeight = 300\<rparr>
        \<le> getPeekOpenTranslateY \<lparr>peekHeight = Some 200, fullHeight = Auto,
          viewportHeight = 800, drawerContentHeight = 300\<rparr>
      \<and> getPeekOpenTranslateY \<lparr>peekHeight = Some 200, fullHeight = Auto,
          viewportHeight = 800, drawerContentHeight = 300\<rparr>
        \<le> getClosedTranslateY \<lparr>peekHeight = Some 200, fullHeight = Auto,
          viewportHeight = 800, drawerContentHeight = 300\<rparr>)"
  using offsets_ordering_iff [of "\<lparr>peekHeight = Some 150, fullHeight = Full100,
          viewportHeight = 800, drawerContentHeight = 300\<rparr>" 150]
    offsets_ordering_iff [of "\<lparr>peekHeight = Some 200, fullHeight = Auto,
          viewportHeight = 800, drawerContentHeight = 300\<rparr>" 200]
  by simp

text \<open>
  C6 as stated fails: in \<open>"auto"\<close> mode with viewport 800, content height 300 and peek
  height 400 the full-open offset is 500 and the peek offset 400.
\<close>

theorem offsets_ordering_counterexample:
  "\<not> (getFullOpenTranslateY \<lparr>peekHeight = Some 400, fullHeight = Auto, viewportHeight = 800,
          drawerContentHeight = 300\<rparr>
        \<le> getPeekOpenTranslateY \<lparr>peekHeight = Some 400, fullHeight = Auto,
          viewportHeight = 800, drawerContentHeight = 300\<rparr>
      \<and> getPeekOpenTranslateY \<lparr>peekHeight = Some 400, fullHeight = Auto,
          viewportHeight = 800, drawerContentHeight = 300\<rparr>
        \<le> getClosedTranslateY \<lparr>peekHeight = Some 400, fullHeight = Auto,
          viewportHeight = 800, drawerContentHeight = 300\<rparr>)"
  by (simp add: getClosedTranslateY_def getPeekOpenTranslateY_def getFullOpenTranslateY_def)

section \<open>Release of a drag\<close>

text \<open>
  C1. On a release whose recorded direction is \<open>down\<close>, with a peek height configured
  and the recorded position above (numerically less than) the peek offset, the position
  is set to \<open>viewportHeight - peekHeight\<close>, \<open>onClose\<close> is not called, and the drawer
  element (when mounted) is animated to that offset with the default duration.
\<close>

theorem release_down_above_peek:
  assumes "dragDirection (ds w) = Some Down"
    and "peekHeight c = Some p" and "p \<noteq> 0"
    and "translateY (ds w) < getPeekOpenTranslateY c"
  shows "translateY (ds (handleDragEnd c w)) = viewportHeight c - p
    \<and> onCloseCalls (handleDragEnd c w) = onCloseCalls w
    \<and> (drawerRefCurrent w \<longrightarrow>
          drawerTransform (handleDragEnd c w) = viewportHeight c - p
          \<and> drawerTransition (handleDragEnd c w) = TransitionTransform 400
          \<and> transformAnimationTimeout (handleDragEnd c w) = Some 400)"
proof -
  have pk: "getPeekOpenTranslateY c = viewportHeight c - p"
    using assms(2,3) by (simp add: getPeekOpenTranslateY_def)
  show ?thesis
    using assms pk
    by (simp add: handleDragEnd_def animateToPosition_def Let_def DURATION_def)
qed

theorem release_down_above_peek_witness:
  "translateY (ds (dragGesture
       \<lparr>peekHeight = Some 150, fullHeight = Full100, viewportHeight = 800,
        drawerContentHeight = 780\<rparr> 30 20 [(310, 800, 780)] (restingWorld 20))) = 650
   \<and> onCloseCalls (dragGesture
       \<lparr>peekHeight = Some 150, fullHeight = Full100, viewportHeight = 800,
        drawerContentHeight = 780\<rparr> 30 20 [(310, 800, 780)] (restingWorld 20)) = 0
   \<and> drawerTransform (dragGesture
       \<lparr>peekHeight = Some 150, fullHeight = Full100, viewportHeight = 800,
        drawerContentHeight = 780\<rparr> 30 20 [(310, 800, 780)] (restingWorld 20)) = 650"
  using release_down_above_peek [of
      "dragMoves \<lparr>peekHeight = Some 150, fullHeight = Full100, viewportHeight = 800,
        drawerContentHeight = 780\<rparr> [(310, 800, 780)] (handleDragStart 30 20 (restingWorld 20))"
      "\<lparr>peekHeight = Some 150, fullHeight = Full100, viewportHeight = 800,
        drawerContentHeight = 780\<rparr>" 150]
  by (simp add: dragGesture_def handleDragStart_def handleDragMove_def restingWorld_def
      initialDragState_def Let_def getPeekOpenTranslateY_def dragOpacity_def
      bottomThreshold_def jsDiv_def)

subsection \<open>Gestures without a peek height\<close>

lemma handleDragMove_keeps:
  "isDragging (ds (handleDragMove c y ih dh w)) = isDragging (ds w)
   \<and> dragStartY (ds (handleDragMove c y ih dh w)) = dragStartY (ds w)
   \<and> initialYOffset (ds (handleDragMove c y ih dh w)) = initialYOffset (ds w)
   \<and> onCloseCalls (handleDragMove c y ih dh w) = onCloseCalls w"
  by (simp add: handleDragMove_def Let_def)

lemma dragMoves_keeps:
  "isDragging (ds (dragMoves c ms w)) = isDragging (ds w)
   \<and> dragStartY (ds (dragMoves c ms w)) = dragStartY (ds w)
   \<and> initialYOffset (ds (dragMoves c ms w)) = initialYOffset (ds w)
   \<and> onCloseCalls (dragMoves c ms w) = onCloseCalls w"
proof (induction ms arbitrary: w)
  case Nil
  show ?case by simp
next
  case (Cons m ms)
  obtain y ih dh where m: "m = (y, ih, dh)"
    by (cases m) auto
  show ?case
    using Cons.IH [of "handleDragMove c y ih dh w"] handleDragMove_keeps [of c y ih dh w]
    by (simp add: m)
qed

lemma dragMoves_append:
  "dragMoves c (ms @ ms') w = dragMoves c ms' (dragMoves c ms w)"
  by (induction ms arbitrary: w) auto

lemma classified_down:
  assumes "isDragging (ds w)"
    and "innerHeight - (clientY - initialYOffset (ds w)) < drawerHeight"
    and "\<bar>clientY - dragStartY (ds w)\<bar> \<ge> 15"
    and "clientY - initialYOffset (ds w) > translateY (ds w)"
  shows "dragDirection (ds (handleDragMove c clientY innerHeight drawerHeight w)) = Some Down"
  using assms by (simp add: handleDragMove_def Let_def)

lemma release_down_no_peek:
  assumes "dragDirection (ds w) = Some Down" and "\<not> truthy (peekHeight c)"
  shows "onCloseCalls (handleDragEnd c w) = Suc (onCloseCalls w)"
  using assms by (simp add: handleDragEnd_def Let_def onClose_def)

lemma handleDragMove_translateY:
  "isDragging (ds w) \<Longrightarrow>
   translateY (ds (handleDragMove c y ih dh w)) = y - initialYOffset (ds w)"
  by (simp add: handleDragMove_def Let_def)

lemma not_reclassified_up:
  assumes "isDragging (ds w)"
    and "dragDirection (ds w) = Some Down"
    and "translateY (ds w) \<le> y - initialYOffset (ds w)"
  shows "dragDirection (ds (handleDragMove c y ih dh w)) = Some Down"
  using assms by (simp add: handleDragMove_def Let_def)

lemma trailing_moves_keep_down:
  assumes "isDragging (ds w)"
    and "dragDirection (ds w) = Some Down"
    and "translateY (ds w) = y - initialYOffset (ds w)"
    and "sorted (y # map fst trailing)"
  shows "dragDirection (ds (dragMoves c trailing w)) = Some Down"
  using assms
proof (induction trailing arbitrary: w y)
  case Nil
  then show ?case by simp
next
  case (Cons m trailing)
  obtain y' ih dh where m: "m = (y', ih, dh)"
    by (cases m) auto
  let ?w = "handleDragMove c y' ih dh w"
  have le: "y \<le> y'" and rest: "sorted (y' # map fst trailing)"
    using Cons.prems(4) by (simp_all add: m)
  have keeps: "isDragging (ds ?w)" "initialYOffset (ds ?w) = initialYOffset (ds w)"
    using handleDragMove_keeps [of c y' ih dh w] Cons.prems(1) by simp_all
  have dir: "dragDirection (ds ?w) = Some Down"
    using not_reclassified_up [of w y' c ih dh] Cons.prems(1,2,3) le by simp
  have pos: "translateY (ds ?w) = y' - initialYOffset (ds ?w)"
    using handleDragMove_translateY [OF Cons.prems(1), of c y' ih dh] keeps(2) by simp
  show ?case
    using Cons.IH [OF keeps(1) dir pos rest] by (simp add: m)
qed

text \<open>
  C2 (as amended). Take a gesture with no peek height configured in which some move is
  accepted by the full-open guard, lies at least 15 pixels from the drag start and puts
  the drawer lower than the position recorded before it, and after which the pointer
  never moves up (every later move is at or below the one before it). Then \<open>onClose\<close> is
  called exactly once at pointer-up.
\<close>

theorem last_classified_down_closes:
  assumes "\<not> truthy (peekHeight c)"
    and "wb = dragMoves c ms (handleDragStart clientY0 rectTop w)"
    and "innerHeight - (clientY - (clientY0 - rectTop)) < drawerHeight"
    and "\<bar>clientY - clientY0\<bar> \<ge> 15"
    and "clientY - (clientY0 - rectTop) > translateY (ds wb)"
    and "sorted (clientY # map fst trailing)"
  shows "onCloseCalls (dragGesture c clientY0 rectTop
            (ms @ (clientY, innerHeight, drawerHeight) # trailing) w) = Suc (onCloseCalls w)"
proof -
  let ?ws = "handleDragStart clientY0 rectTop w"
  have start: "isDragging (ds ?ws)" "dragStartY (ds ?ws) = clientY0"
    "initialYOffset (ds ?ws) = clientY0 - rectTop" "onCloseCalls ?ws = onCloseCalls w"
    by (simp_all add: handleDragStart_def)
  have wb: "isDragging (ds wb)" "dragStartY (ds wb) = clientY0"
    "initialYOffset (ds wb) = clientY0 - rectTop" "onCloseCalls wb = onCloseCalls w"
    using dragMoves_keeps [of c ms ?ws] start assms(2) by simp_all
  let ?wl = "handleDragMove c clientY innerHeight drawerHeight wb"
  have wl: "isDragging (ds ?wl)" "initialYOffset (ds ?wl) = clientY0 - rectTop"
    "onCloseCalls ?wl = onCloseCalls w"
    using handleDragMove_keeps [of c clientY innerHeight drawerHeight wb] wb by simp_all
  have dir: "dragDirection (ds ?wl) = Some Down"
    using classified_down [of wb innerHeight clientY drawerHeight c] wb assms(3-5) by simp
  have pos: "translateY (ds ?wl) = clientY - initialYOffset (ds ?wl)"
    using handleDragMove_translateY [OF wb(1), of c clientY innerHeight drawerHeight] wb(3) wl(2)
    by simp
  let ?wt = "dragMoves c trailing ?wl"
  have "dragDirection (ds ?wt) = Some Down"
    using trailing_moves_keep_down [OF wl(1) dir pos assms(6)] .
  then have "onCloseCalls (handleDragEnd c ?wt) = Suc (onCloseCalls ?wt)"
    using release_down_no_peek assms(1) by blast
  moreover have "onCloseCalls ?wt = onCloseCalls w"
    using dragMoves_keeps [of c trailing ?wl] wl(3) by simp
  ultimately show ?thesis
    using assms(2) by (simp add: dragGesture_def dragMoves_append)
qed

theorem last_classified_down_closes_witness:
  "onCloseCalls (dragGesture \<lparr>peekHeight = None, fullHeight = Auto, viewportHeight = 800,
        drawerContentHeight = 300\<rparr> 520 500
        ([(570, 800, 300)] @ (620, 800, 300) # [(620, 800, 300), (625, 800, 300)])
        (restingWorld 500)) = Suc (onCloseCalls (restingWorld 500))"
proof -
  let ?c = "\<lparr>peekHeight = None, fullHeight = Auto, viewportHeight = 800,
        drawerContentHeight = 300\<rparr>"
  have a: "\<not> truthy (peekHeight ?c)"
    by simp
  have b: "(800::real) - (620 - (520 - 500)) < 300"
    by simp
  have d: "\<bar>(620::real) - 520\<bar> \<ge> 15"
    by simp
  have e: "(620::real) - (520 - 500)
      > translateY (ds (dragMoves ?c [(570, 800, 300)] (handleDragStart 520 500 (restingWorld 500))))"
    by (simp add: handleDragStart_def handleDragMove_def restingWorld_def
        initialDragState_def Let_def)
  have f: "sorted ((620::real) # map fst [(620, 800, 300), (625::real, 800::real, 300::real)])"
    by simp
  show ?thesis
    using last_classified_down_closes [OF a refl b d e f] .
qed

text \<open>
  C2 as stated fails. With viewport 800, content height 300 and no peek height, the
  drawer rests open at 500; the pointer goes down at 520, moves to 620 and back to 570,
  and is released 50 pixels below the start. The last move went up, so the release
  settles at the full-open offset and \<open>onClose\<close> is not called.
\<close>

theorem net_down_not_closed_counterexample:
  "(570::real) - 520 > 15
   \<and> onCloseCalls (dragGesture \<lparr>peekHeight = None, fullHeight = Auto, viewportHeight = 800,
        drawerContentHeight = 300\<rparr> 520 500 [(620, 800, 300), (570, 800, 300)]
        (restingWorld 500)) = 0
   \<and> translateY (ds (dragGesture \<lparr>peekHeight = None, fullHeight = Auto,
        viewportHeight = 800, drawerContentHeight = 300\<rparr> 520 500
        [(620, 800, 300), (570, 800, 300)] (restingWorld 500))) = 500"
  by (simp add: dragGesture_def handleDragStart_def handleDragMove_def handleDragEnd_def
      restingWorld_def initialDragState_def Let_def getFullOpenTranslateY_def
      dragOpacity_def bottomThreshold_def jsDiv_def animateToPosition_def)

subsection \<open>Releases that carry no direction\<close>

lemma snapClosest_no_peek:
  "\<not> truthy (peekHeight c) \<Longrightarrow> snapClosest c y = getFullOpenTranslateY c"
  by (simp add: snapClosest_def)

lemma snapClosest_nonzero_peek:
  assumes "truthy (peekHeight c)" and "getPeekOpenTranslateY c \<noteq> 0"
  shows "snapClosest c y \<in> {getPeekOpenTranslateY c, getFullOpenTranslateY c}
     \<and> \<bar>y - snapClosest c y\<bar> \<le> \<bar>y - getPeekOpenTranslateY c\<bar>
     \<and> \<bar>y - snapClosest c y\<bar> \<le> \<bar>y - getFullOpenTranslateY c\<bar>"
  using assms by (simp add: snapClosest_def Let_def)

text \<open>
  C3 fails on the code where the peek offset is exactly 0, that is where the peek
  height equals the viewport height: \<open>peekPosition\<close> is then falsy and the branch for a
  drawer without peek height is taken. With viewport 800, peek height 800 and content
  height 300 the drawer opens at the peek offset 0; a tap (pointer-down and pointer-up
  with no move) carries no direction, the position is at distance 0 from the peek
  offset and 500 from the full-open offset, and the release animates to 500.
\<close>

theorem tap_at_zero_peek_snaps_to_full:
  "getPeekOpenTranslateY \<lparr>peekHeight = Some 800, fullHeight = Auto, viewportHeight = 800,
        drawerContentHeight = 300\<rparr> = 0
   \<and> getFullOpenTranslateY \<lparr>peekHeight = Some 800, fullHeight = Auto, viewportHeight = 800,
        drawerContentHeight = 300\<rparr> = 500
   \<and> dragDirection (ds (dragMoves \<lparr>peekHeight = Some 800, fullHeight = Auto,
        viewportHeight = 800, drawerContentHeight = 300\<rparr> []
        (handleDragStart 10 0 (restingWorld 0)))) = None
   \<and> translateY (ds (dragGesture \<lparr>peekHeight = Some 800, fullHeight = Auto,
        viewportHeight = 800, drawerContentHeight = 300\<rparr> 10 0 [] (restingWorld 0))) = 500
   \<and> drawerTransform (dragGesture \<lparr>peekHeight = Some 800, fullHeight = Auto,
        viewportHeight = 800, drawerContentHeight = 300\<rparr> 10 0 [] (restingWorld 0)) = 500"
  by (simp add: dragGesture_def handleDragStart_def handleDragEnd_def restingWorld_def
      initialDragState_def Let_def getPeekOpenTranslateY_def getFullOpenTranslateY_def
      snapClosest_def animateToPosition_def)

subsection \<open>The direction after a release\<close>

lemma handleDragEnd_direction:
  "dragDirection (ds (handleDragEnd c w)) = dragDirection (ds w)
   \<and> isDragging (ds (handleDragEnd c w)) = False"
  by (simp add: handleDragEnd_def Let_def animateToPosition_def onClose_def)

lemma handleDragStart_direction:
  "dragDirection (ds (handleDragStart clientY rectTop w)) = dragDirection (ds w)"
  by (simp add: handleDragStart_def)

text \<open>
  C4 fails on the code: \<open>handleDragEnd\<close> clears \<open>isDragging\<close> and nothing ever resets
  \<open>dragDirection\<close>. With viewport 800, peek height 150 and \<open>"100%"\<close> mode, a drag from the
  full-open offset 20 down to 300 settles at the peek offset 650 with direction \<open>down\<close>
  still recorded; the following tap on the drawer is resolved by the directional rule
  and calls \<open>onClose\<close>.
\<close>

theorem direction_survives_release:
  "dragDirection (ds (dragGesture
       \<lparr>peekHeight = Some 150, fullHeight = Full100, viewportHeight = 800,
        drawerContentHeight = 780\<rparr> 30 20 [(310, 800, 780)] (restingWorld 20))) = Some Down
   \<and> isDragging (ds (dragGesture
       \<lparr>peekHeight = Some 150, fullHeight = Full100, viewportHeight = 800,
        drawerContentHeight = 780\<rparr> 30 20 [(310, 800, 780)] (restingWorld 20))) = False
   \<and> onCloseCalls (dragGesture
       \<lparr>peekHeight = Some 150, fullHeight = Full100, viewportHeight = 800,
        drawerContentHeight = 780\<rparr> 30 20 [(310, 800, 780)] (restingWorld 20)) = 0
   \<and> onCloseCalls (dragGesture
       \<lparr>peekHeight = Some 150, fullHeight = Full100, viewportHeight = 800,
        drawerContentHeight = 780\<rparr> 700 650 []
       (dragGesture
         \<lparr>peekHeight = Some 150, fullHeight = Full100, viewportHeight = 800,
          drawerContentHeight = 780\<rparr> 30 20 [(310, 800, 780)] (restingWorld 20))) = 1"
  by (simp add: dragGesture_def handleDragStart_def handleDragMove_def handleDragEnd_def
      restingWorld_def initialDragState_def Let_def getPeekOpenTranslateY_def
      dragOpacity_def bottomThreshold_def jsDiv_def animateToPosition_def onClose_def)

section \<open>Moves of a drag\<close>

text \<open>
  C7 (as amended). For every pointer-move during an active drag whose proposed position
  would show at least the drawer's rendered height, the write to the drawer's transform
  is skipped: the transform, the direction, the overlay and everything else stay as they
  were, except that the proposed position is recorded in \<open>dragState.translateY\<close>.
\<close>

theorem rejected_move:
  assumes "isDragging (ds w)"
    and "innerHeight - (clientY - initialYOffset (ds w)) \<ge> drawerHeight"
  shows "handleDragMove c clientY innerHeight drawerHeight w
         = w\<lparr>ds := (ds w)\<lparr>translateY := clientY - initialYOffset (ds w)\<rparr>\<rparr>"
  using assms by (simp add: handleDragMove_def Let_def)

theorem rejected_move_witness:
  "handleDragMove \<lparr>peekHeight = None, fullHeight = Auto, viewportHeight = 800,
        drawerContentHeight = 300\<rparr> 420 800 300 (handleDragStart 520 500 (restingWorld 500))
   = (handleDragStart 520 500 (restingWorld 500))
       \<lparr>ds := (ds (handleDragStart 520 500 (restingWorld 500)))\<lparr>translateY := 400\<rparr>\<rparr>
   \<and> drawerTransform (handleDragMove \<lparr>peekHeight = None, fullHeight = Auto,
        viewportHeight = 800, drawerContentHeight = 300\<rparr> 420 800 300
        (handleDragStart 520 500 (restingWorld 500))) = 500"
  using rejected_move [of "handleDragStart 520 500 (restingWorld 500)" 300 800 420
      "\<lparr>peekHeight = None, fullHeight = Auto, viewportHeight = 800,
        drawerContentHeight = 300\<rparr>"]
  by (simp add: handleDragStart_def restingWorld_def initialDragState_def)

text \<open>
  C7 as stated fails: the rejected move does change the drag state. With viewport 800
  and drawer height 300 the drawer rests at 500; a move 100 pixels up proposes 400,
  which would show 400 pixels of a drawer 300 high, and the recorded position becomes
  400.
\<close>

theorem rejected_move_changes_state_counterexample:
  "(800::real) - (420 - 20) > 300
   \<and> ds (handleDragMove \<lparr>peekHeight = None, fullHeight = Auto, viewportHeight = 800,
        drawerContentHeight = 300\<rparr> 420 800 300 (handleDragStart 520 500 (restingWorld 500)))
     \<noteq> ds (handleDragStart 520 500 (restingWorld 500))"
  by (simp add: handleDragStart_def handleDragMove_def restingWorld_def
      initialDragState_def Let_def)

subsection \<open>Overlay opacity\<close>

lemma dragOpacity_Num:
  assumes "bottomThreshold c drawerHeight < viewportHeight c"
  shows "dragOpacity c drawerHeight y =
     Num (max 0 (1 - (y - bottomThreshold c drawerHeight)
                      / (viewportHeight c - bottomThreshold c drawerHeight)))"
  using assms by (simp add: dragOpacity_def jsDiv_def)

lemma bottomThreshold_cases:
  "bottomThreshold c drawerHeight =
     (if truthy (peekHeight c) then getPeekOpenTranslateY c
      else viewportHeight c - drawerHeight)"
  by (cases "peekHeight c") (auto simp add: bottomThreshold_def getPeekOpenTranslateY_def)

lemma drag_move_within_deadband:
  assumes "isDragging (ds w)"
    and "innerHeight - (clientY - initialYOffset (ds w)) < drawerHeight"
    and "\<bar>clientY - dragStartY (ds w)\<bar> < 15"
  shows "handleDragMove c clientY innerHeight drawerHeight w
         = w\<lparr>ds := (ds w)\<lparr>translateY := clientY - initialYOffset (ds w)\<rparr>,
             drawerTransform := clientY - initialYOffset (ds w)\<rparr>"
  using assms by (simp add: handleDragMove_def Let_def)

text \<open>
  C8 (as amended). During every drag move that updates the drawer position, lies at
  least 15 pixels from the drag start and finds the overlay mounted, the overlay's
  opacity is set to \<open>max 0 (1 - (y - T) / (viewportHeight - T))\<close>, where \<open>y\<close> is the new
  position and the threshold \<open>T\<close>, taken below the viewport bottom, is the peek offset
  when a peek height is configured and the viewport height minus the drawer's rendered
  height otherwise. The value is linear in \<open>y\<close> down to the viewport bottom, never
  negative, and within the unit interval whenever the new position is at or below the
  threshold.
\<close>

theorem drag_move_opacity:
  assumes "isDragging (ds w)"
    and "innerHeight - (clientY - initialYOffset (ds w)) < drawerHeight"
    and "\<bar>clientY - dragStartY (ds w)\<bar> \<ge> 15"
    and "overlayRefCurrent w"
    and "T = (if truthy (peekHeight c) then getPeekOpenTranslateY c
              else viewportHeight c - drawerHeight)"
    and "T < viewportHeight c"
    and "y = clientY - initialYOffset (ds w)"
    and "w' = handleDragMove c clientY innerHeight drawerHeight w"
  shows "drawerTransform w' = y
    \<and> overlayOpacity w' = dragOpacity c drawerHeight y
    \<and> overlayOpacity w' = Num (max 0 (1 - (y - T) / (viewportHeight c - T)))
    \<and> 0 \<le> max 0 (1 - (y - T) / (viewportHeight c - T))
    \<and> (T \<le> y \<longrightarrow> inUnitInterval (overlayOpacity w'))"
proof -
  have T: "T = bottomThreshold c drawerHeight"
    using assms(5) by (simp add: bottomThreshold_cases)
  have op: "overlayOpacity w' = dragOpacity c drawerHeight y"
    using assms(1-4,7,8) by (simp add: handleDragMove_def Let_def)
  have tr: "drawerTransform w' = y"
    using assms(1-4,7,8) by (simp add: handleDragMove_def Let_def)
  have num: "dragOpacity c drawerHeight y = Num (max 0 (1 - (y - T) / (viewportHeight c - T)))"
    using dragOpacity_Num [of c drawerHeight y] assms(6) T by simp
  have le1: "T \<le> y \<Longrightarrow> (y - T) / (viewportHeight c - T) \<ge> 0"
    using assms(6) by simp
  have val: "overlayOpacity w' = Num (max 0 (1 - (y - T) / (viewportHeight c - T)))"
    using op num by simp
  have unit: "inUnitInterval (overlayOpacity w')" if "T \<le> y"
    using le1 [OF that] by (simp add: val)
  show ?thesis
  proof (intro conjI impI)
    show "drawerTransform w' = y" by (rule tr)
    show "overlayOpacity w' = dragOpacity c drawerHeight y" by (rule op)
    show "overlayOpacity w' = Num (max 0 (1 - (y - T) / (viewportHeight c - T)))"
      by (rule val)
    show "0 \<le> max 0 (1 - (y - T) / (viewportHeight c - T))" by simp
    show "inUnitInterval (overlayOpacity w')" if "T \<le> y"
      using unit that by simp
  qed
qed

theorem drag_move_opacity_witness:
  "drawerTransform (handleDragMove \<lparr>peekHeight = Some 150, fullHeight = Full100,
        viewportHeight = 800, drawerContentHeight = 780\<rparr> 710 800 780
        (handleDragStart 660 650 (restingWorld 650))) = 700
   \<and> overlayOpacity (handleDragMove \<lparr>peekHeight = Some 150, fullHeight = Full100,
        viewportHeight = 800, drawerContentHeight = 780\<rparr> 710 800 780
        (handleDragStart 660 650 (restingWorld 650))) = Num (2 / 3)
   \<and> inUnitInterval (overlayOpacity (handleDragMove \<lparr>peekHeight = Some 150,
        fullHeight = Full100, viewportHeight = 800, drawerContentHeight = 780\<rparr> 710 800 780
        (handleDragStart 660 650 (restingWorld 650))))"
proof -
  let ?c = "\<lparr>peekHeight = Some 150, fullHeight = Full100,
        viewportHeight = 800, drawerContentHeight = 780\<rparr>"
  let ?w = "handleDragStart 660 650 (restingWorld 650)"
  have a: "isDragging (ds ?w)"
    by (simp add: handleDragStart_def)
  have b: "800 - (710 - initialYOffset (ds ?w)) < 780"
    by (simp add: handleDragStart_def)
  have d: "\<bar>710 - dragStartY (ds ?w)\<bar> \<ge> 15"
    by (simp add: handleDragStart_def)
  have e: "overlayRefCurrent ?w"
    by (simp add: handleDragStart_def restingWorld_def)
  have f: "650 = (if truthy (peekHeight ?c) then getPeekOpenTranslateY ?c
                  else viewportHeight ?c - 780)"
    by (simp add: getPeekOpenTranslateY_def)
  have g: "650 < viewportHeight ?c"
    by simp
  have h: "700 = 710 - initialYOffset (ds ?w)"
    by (simp add: handleDragStart_def)
  have r: "drawerTransform (handleDragMove ?c 710 800 780 ?w) = 700
    \<and> overlayOpacity (handleDragMove ?c 710 800 780 ?w)
        = Num (max 0 (1 - (700 - 650) / (viewportHeight ?c - 650)))
    \<and> (650 \<le> (700::real) \<longrightarrow>
          inUnitInterval (overlayOpacity (handleDragMove ?c 710 800 780 ?w)))"
    using drag_move_opacity [OF a b d e f g h refl] by blast
  have v: "max 0 (1 - (700 - 650) / (viewportHeight ?c - 650)) = (2 / 3 :: real)"
    by simp
  show ?thesis
    using r unfolding v by simp
qed

text \<open>
  C8 as stated fails twice. With viewport 800 and peek height 150 the drawer rests at
  650. A move 150 pixels up puts it at 500, above the peek offset, and writes the
  opacity 2. A move 10 pixels down puts it at 660 and writes no opacity: the overlay
  keeps 1 where the interpolation gives 14/15.
\<close>

theorem drag_opacity_counterexample:
  "drawerTransform (handleDragMove \<lparr>peekHeight = Some 150, fullHeight = Full100,
        viewportHeight = 800, drawerContentHeight = 780\<rparr> 510 800 780
        (handleDragStart 660 650 (restingWorld 650))) = 500
   \<and> \<not> inUnitInterval (overlayOpacity (handleDragMove \<lparr>peekHeight = Some 150,
        fullHeight = Full100, viewportHeight = 800, drawerContentHeight = 780\<rparr> 510 800 780
        (handleDragStart 660 650 (restingWorld 650))))
   \<and> drawerTransform (handleDragMove \<lparr>peekHeight = Some 150, fullHeight = Full100,
        viewportHeight = 800, drawerContentHeight = 780\<rparr> 670 800 780
        (handleDragStart 660 650 (restingWorld 650))) = 660
   \<and> overlayOpacity (handleDragMove \<lparr>peekHeight = Some 150, fullHeight = Full100,
        viewportHeight = 800, drawerContentHeight = 780\<rparr> 670 800 780
        (handleDragStart 660 650 (restingWorld 650))) = Num 1
   \<and> dragOpacity \<lparr>peekHeight = Some 150, fullHeight = Full100,
        viewportHeight = 800, drawerContentHeight = 780\<rparr> 780 660 = Num (14 / 15)"
  by (simp add: handleDragStart_def handleDragMove_def restingWorld_def
      initialDragState_def Let_def dragOpacity_def bottomThreshold_def jsDiv_def)

section \<open>Escape key\<close>

text \<open>
  C10. The key listener does not look at \<open>isOpen\<close>: every keydown of Escape calls
  \<open>onClose\<close> once, also while the drawer is closed.
\<close>

theorem escape_calls_onClose_when_closed:
  "onCloseCalls (drawerKeydown isOpen ''Escape'' w) = Suc (onCloseCalls w)
   \<and> onCloseCalls (drawerKeydown False ''Escape'' w) = Suc (onCloseCalls w)"
  by (simp add: drawerKeydown_def handleKeyPress_def onClose_def)

section \<open>The grace period of the content\<close>

lemma invariant_mount:
  "0 < firstId \<Longrightarrow> invariant (mount sh (DURATION + 100) firstId)"
  by (simp add: invariant_def mount_def effect_def)

lemma invariant_elapse:
  assumes "invariant s"
  shows "invariant (elapse dt s)"
proof (cases "showing s")
  case True
  then show ?thesis
    using assms by (simp add: invariant_def elapse_def)
next
  case False
  show ?thesis
  proof (cases "isMounted s")
    case True
    with False assms obtain i r where t: "timers s = [(i, r)]" "timeoutRef s = Some i"
      "i \<noteq> 0" "0 < r"
      by (auto simp add: invariant_def)
    show ?thesis
      using assms False True t by (cases "dt < r") (simp_all add: invariant_def elapse_def)
  next
    case F: False
    then show ?thesis
      using assms False by (simp add: invariant_def elapse_def)
  qed
qed

lemma invariant_rerender:
  assumes "invariant s"
  shows "invariant (rerender b (DURATION + 100) s)"
proof (cases "b = showing s")
  case True
  have "duration s = DURATION + 100"
    using assms by (simp add: invariant_def)
  then have "rerender b (DURATION + 100) s = s"
    using True by (simp add: rerender_def)
  then show ?thesis
    using assms by simp
next
  case False
  have d: "duration s = DURATION + 100" "0 < nextTimerId s"
    using assms by (simp_all add: invariant_def)
  show ?thesis
  proof (cases "showing s")
    case True
    with False have b: "\<not> b" by simp
    have m: "isMounted s" "timers s = []"
      using assms True by (simp_all add: invariant_def)
    show ?thesis
      using b True m d
      by (cases "timeoutRef s")
        (simp_all add: rerender_def cleanup_def effect_def setTimeout_def clearTimeout_def
          invariant_def Let_def)
  next
    case F: False
    with False have b: "b" by simp
    show ?thesis
    proof (cases "isMounted s")
      case True
      with F assms obtain i r where t: "timers s = [(i, r)]" "timeoutRef s = Some i"
        "i \<noteq> 0" "0 < r"
        by (auto simp add: invariant_def)
      show ?thesis
        using b F True t d
        by (simp add: rerender_def cleanup_def effect_def clearTimeout_def invariant_def)
    next
      case False
      then have "timers s = []"
        using assms F by (simp add: invariant_def)
      then show ?thesis
        using b F False d
        by (cases "timeoutRef s")
          (simp_all add: rerender_def cleanup_def effect_def clearTimeout_def invariant_def)
    qed
  qed
qed

lemma invariant_step: "invariant s \<Longrightarrow> invariant (step e s)"
  by (cases e) (simp_all add: invariant_rerender invariant_elapse)

lemma invariant_run: "invariant s \<Longrightarrow> invariant (run evs s)"
  by (induction evs arbitrary: s) (simp_all add: invariant_step)

lemma close_sets_timer:
  assumes "invariant s" and "showing s"
  shows "\<not> showing (step (IsOpen False) s) \<and> isMounted (step (IsOpen False) s)
    \<and> timers (step (IsOpen False) s) = [(nextTimerId s, DURATION + 100)]
    \<and> timeoutRef (step (IsOpen False) s) = Some (nextTimerId s)"
proof -
  have m: "isMounted s" "timers s = []" "duration s = DURATION + 100"
    using assms by (simp_all add: invariant_def)
  show ?thesis
    using assms(2) m
    by (cases "timeoutRef s")
      (simp_all add: rerender_def cleanup_def effect_def setTimeout_def clearTimeout_def
        Let_def)
qed

lemma close_again_is_noop:
  assumes "\<not> showing s" and "duration s = DURATION + 100"
  shows "step (IsOpen False) s = s"
  using assms by (simp add: rerender_def)

lemma open_again_is_noop:
  assumes "showing s" and "duration s = DURATION + 100"
  shows "step (IsOpen True) s = s"
  using assms by (simp add: rerender_def)

lemma window_before:
  assumes "\<not> showing s" and "isMounted s" and "timers s = [(i, r)]"
    and "duration s = DURATION + 100"
    and "IsOpen True \<notin> set es" and "elapsed es < r"
  shows "run es s = s\<lparr>timers := [(i, r - elapsed es)]\<rparr>"
  using assms
proof (induction es arbitrary: s r)
  case Nil
  then show ?case by simp
next
  case (Cons e es)
  show ?case
  proof (cases e)
    case (IsOpen b)
    then have b: "\<not> b"
      using Cons.prems(5) by auto
    have "step e s = s"
      using close_again_is_noop [OF Cons.prems(1,4)] IsOpen b by simp
    then show ?thesis
      using Cons.IH [of s r] Cons.prems IsOpen by simp
  next
    case (Elapse d)
    let ?s = "elapse d s"
    have d: "d < r" and rest: "elapsed es < r - d"
      using Cons.prems(6) Elapse by simp_all
    have e: "?s = s\<lparr>timers := [(i, r - d)]\<rparr>"
      using Cons.prems(2,3) d by (simp add: elapse_def)
    have "run es ?s = ?s\<lparr>timers := [(i, r - d - elapsed es)]\<rparr>"
      using Cons.IH [of ?s "r - d"] Cons.prems(1,2,4,5) rest e by simp
    then show ?thesis
      using e Elapse by simp
  qed
qed

lemma window_unmounted:
  assumes "\<not> showing s" and "\<not> isMounted s" and "timers s = []"
    and "duration s = DURATION + 100" and "IsOpen True \<notin> set es"
  shows "run es s = s"
  using assms
proof (induction es arbitrary: s)
  case Nil
  then show ?case by simp
next
  case (Cons e es)
  have "step e s = s"
  proof (cases e)
    case (IsOpen b)
    then have "\<not> b"
      using Cons.prems(5) by auto
    then show ?thesis
      using close_again_is_noop [OF Cons.prems(1,4)] IsOpen by simp
  next
    case (Elapse d)
    then show ?thesis
      using Cons.prems(2,3) by (simp add: elapse_def)
  qed
  then show ?case
    using Cons by simp
qed

lemma window_after:
  assumes "\<not> showing s" and "isMounted s" and "timers s = [(i, r)]"
    and "duration s = DURATION + 100"
    and "IsOpen True \<notin> set es" and "r \<le> elapsed es" and "0 < r"
  shows "\<not> rendersChildren (run es s)"
  using assms
proof (induction es arbitrary: s r)
  case Nil
  then show ?case by simp
next
  case (Cons e es)
  show ?case
  proof (cases e)
    case (IsOpen b)
    then have b: "\<not> b"
      using Cons.prems(5) by auto
    have "step e s = s"
      using close_again_is_noop [OF Cons.prems(1,4)] IsOpen b by simp
    then show ?thesis
      using Cons.IH [of s r] Cons.prems IsOpen by simp
  next
    case (Elapse d)
    let ?s = "elapse d s"
    have no: "IsOpen True \<notin> set es"
      using Cons.prems(5) by simp
    show ?thesis
    proof (cases "d < r")
      case True
      have e: "?s = s\<lparr>timers := [(i, r - d)]\<rparr>"
        using Cons.prems(2,3) True by (simp add: elapse_def)
      have "\<not> rendersChildren (run es ?s)"
        using Cons.IH [of ?s "r - d"] Cons.prems(1,2,4,6) no True e Elapse by simp
      then show ?thesis
        using Elapse by simp
    next
      case False
      then have e: "\<not> showing ?s" "\<not> isMounted ?s" "timers ?s = []"
        "duration ?s = DURATION + 100"
        using Cons.prems(1,3,4) by (simp_all add: elapse_def)
      have "run es ?s = ?s"
        using window_unmounted [OF e no] .
      then show ?thesis
        using e Elapse by (simp add: rendersChildren_def)
    qed
  qed
qed

lemma open_stays:
  assumes "showing s" and "isMounted s" and "timers s = []"
    and "duration s = DURATION + 100" and "IsOpen False \<notin> set es"
  shows "run es s = s"
  using assms
proof (induction es arbitrary: s)
  case Nil
  then show ?case by simp
next
  case (Cons e es)
  have "step e s = s"
  proof (cases e)
    case (IsOpen b)
    then have "b"
      using Cons.prems(5) by auto
    then show ?thesis
      using open_again_is_noop [OF Cons.prems(1,4)] IsOpen by simp
  next
    case (Elapse d)
    then show ?thesis
      using Cons.prems(2,3) by (simp add: elapse_def)
  qed
  then show ?case
    using Cons by simp
qed

text \<open>
  C9. Take any history of changes of \<open>isOpen\<close> and lapses of time after which the drawer
  is open, and let \<open>isOpen\<close> become false. Whatever lapses of time and repeated close
  requests follow, the content is rendered as long as less than the grace duration
  \<open>DURATION + 100\<close> has passed and is not rendered once that much has passed. If \<open>isOpen\<close>
  becomes true again before the grace duration has passed, no timer is left pending and
  the content stays mounted and rendered for as long as no close request follows.
  Timer handles are positive, as the browser hands them out.
\<close>

theorem content_mounted_for_grace_period:
  assumes "0 < firstId"
    and "s = run evs (mount isOpen0 (DURATION + 100) firstId)"
    and "showing s"
    and "IsOpen True \<notin> set early" and "elapsed early < DURATION + 100"
    and "IsOpen True \<notin> set late" and "DURATION + 100 \<le> elapsed late"
    and "closing = run early (step (IsOpen False) s)"
    and "reopened = step (IsOpen True) closing"
    and "IsOpen False \<notin> set later"
  shows "rendersChildren closing
    \<and> \<not> rendersChildren (run late (step (IsOpen False) s))
    \<and> timers reopened = []
    \<and> rendersChildren reopened
    \<and> rendersChildren (run later reopened)
    \<and> isMounted (run later reopened)"
proof -
  let ?c = "step (IsOpen False) s"
  have "invariant (mount isOpen0 (DURATION + 100) firstId)"
    using assms(1) by (rule invariant_mount)
  then have inv: "invariant s"
    unfolding assms(2) by (rule invariant_run)
  have inv_c: "invariant ?c"
    using inv by (rule invariant_step)
  then have inv_closing: "invariant closing"
    unfolding assms(8) by (rule invariant_run)
  have c: "\<not> showing ?c" "isMounted ?c" "timers ?c = [(nextTimerId s, DURATION + 100)]"
    using close_sets_timer [OF inv assms(3)] by simp_all
  have dur: "duration ?c = DURATION + 100"
    using inv_c by (simp add: invariant_def)
  have after: "\<not> rendersChildren (run late ?c)"
    using window_after [OF c dur assms(6,7)] by simp
  have cl: "closing = ?c\<lparr>timers := [(nextTimerId s, DURATION + 100 - elapsed early)]\<rparr>"
    using window_before [OF c dur assms(4,5)] assms(8) by simp
  have r1: "rendersChildren closing"
    using cl c(2) by (simp add: rendersChildren_def)
  have inv_re: "invariant reopened"
    unfolding assms(9) using inv_closing by (rule invariant_step)
  have sh: "showing reopened"
    using cl c(1) assms(9) by (simp add: rerender_def effect_def cleanup_def)
  then have t: "timers reopened = []" "isMounted reopened" "duration reopened = DURATION + 100"
    using inv_re by (simp_all add: invariant_def)
  have "run later reopened = reopened"
    using open_stays [OF sh t(2,1,3) assms(10)] .
  then show ?thesis
    using r1 after t sh by (simp add: rendersChildren_def)
qed

theorem content_mounted_for_grace_period_witness:
  "rendersChildren (run [Elapse 200, IsOpen False, Elapse 100]
       (step (IsOpen False) (run [IsOpen True] (mount False (DURATION + 100) 1))))
   \<and> \<not> rendersChildren (run [Elapse 300, IsOpen False, Elapse 300]
       (step (IsOpen False) (run [IsOpen True] (mount False (DURATION + 100) 1))))
   \<and> timers (step (IsOpen True) (run [Elapse 200, IsOpen False, Elapse 100]
       (step (IsOpen False) (run [IsOpen True] (mount False (DURATION + 100) 1))))) = []
   \<and> rendersChildren (run [Elapse 1000, IsOpen True] (step (IsOpen True)
       (run [Elapse 200, IsOpen False, Elapse 100]
         (step (IsOpen False) (run [IsOpen True] (mount False (DURATION + 100) 1))))))"
proof -
  have a: "0 < (1::nat)"
    by simp
  have b: "showing (run [IsOpen True] (mount False (DURATION + 100) 1))"
    by (simp add: mount_def effect_def rerender_def cleanup_def)
  have c: "IsOpen True \<notin> set [Elapse 200, IsOpen False, Elapse 100]"
    by simp
  have d: "elapsed [Elapse 200, IsOpen False, Elapse 100] < DURATION + 100"
    by (simp add: DURATION_def)
  have e: "IsOpen True \<notin> set [Elapse 300, IsOpen False, Elapse 300]"
    by simp
  have f: "DURATION + 100 \<le> elapsed [Elapse 300, IsOpen False, Elapse 300]"
    by (simp add: DURATION_def)
  have g: "IsOpen False \<notin> set [Elapse 1000, IsOpen True]"
    by simp
  show ?thesis
    using content_mounted_for_grace_period [OF a refl b c d e f refl refl g]
    by blast
qed

end
